theory Spec2Isabelle
  imports Complex_Main "HOL-Library.Word"
begin

unbundle bit_operations_syntax

section \<open>The PWM driver of the motor controller (src/motor/motor_pwm.c)\<close>

text \<open>
  The file drives the six switches of a three-phase bridge through two timers of an
  STM32F10x: TIM4 (channels 1 to 3) holds the high-side compare values, TIM3 (channels
  2 to 4) the low-side ones, and each timer's CCER register holds the polarity bits.
  The model is a shallow embedding: the registers the file writes are a store from
  register names to 16-bit words, the two file-scope variables are fields of the state,
  every function of the file is a function from state to state, and an assertion that
  fires is an error value.
\<close>

subsection \<open>Machine types\<close>

text \<open>
  \<open>uint16_t\<close> is a 16-bit word. \<open>uint_fast16_t\<close> is \<open>unsigned int\<close> on the ARM target
  of the firmware, a 32-bit word; every value of that type is stored to a 16-bit location
  in the end, which keeps its low 16 bits.
\<close>

type_synonym uint16_t = "16 word"
type_synonym uint_fast16_t = "32 word"

datatype error = AssertionFailed | UndefinedBehaviour

subsection \<open>What the file takes from headers that are not among the sources\<close>

text \<open>
  The macros below come from \<open>pwm.h\<close> (the duty-cycle resolution and the largest duty
  code), from the vendor's \<open>stm32f10x.h\<close> (the four polarity bits of a CCER register),
  from the RTOS configuration (the timer clock in Hz, a 32-bit integer constant) and from
  the compiler's command line (\<open>NDEBUG\<close>, which removes every \<open>assert\<close>). None of them is defined in the file,
  so they are parameters of the model.
\<close>

record headers =
  NDEBUG :: bool
  STM32_TIMCLK1 :: "32 word"
  MOTOR_PWM_DUTY_CYCLE_RESOLUTION :: nat
  MOTOR_PWM_DUTY_CYCLE_MAX :: uint16_t
  TIM_CCER_CC1P :: uint16_t
  TIM_CCER_CC2P :: uint16_t
  TIM_CCER_CC3P :: uint16_t
  TIM_CCER_CC4P :: uint16_t

text \<open>
  \<open>enum motor_pwm_phase_manip\<close> and \<open>struct motor_pwm_val\<close> are declared in \<open>pwm.h\<close>
  as well. The file names four commands and one field; the field is read into and
  written from 16-bit quantities.
\<close>

datatype motor_pwm_phase_manip =
  MOTOR_PWM_MANIP_LOW | MOTOR_PWM_MANIP_HIGH | MOTOR_PWM_MANIP_FLOATING | MOTOR_PWM_MANIP_HALF

record motor_pwm_val =
  normalized_duty_cycle :: uint16_t

subsection \<open>Constants of the file\<close>

definition PWM_MIN_PULSE_NANOSEC :: nat where
  "PWM_MIN_PULSE_NANOSEC = 300"

definition PWM_DEAD_TIME_NANOSEC :: nat where
  "PWM_DEAD_TIME_NANOSEC = 400"

definition PWM_TRUE_RESOLUTION :: nat where
  "PWM_TRUE_RESOLUTION = 10"

definition PWM_TOP :: int where
  "PWM_TOP = push_bit PWM_TRUE_RESOLUTION 1 - 1"

definition PWM_HALF_TOP :: int where
  "PWM_HALF_TOP = push_bit PWM_TRUE_RESOLUTION 1 div 2"

subsection \<open>Registers and state\<close>

datatype reg =
  TIM3_CCER | TIM4_CCER
  | TIM4_CCR1 | TIM4_CCR2 | TIM4_CCR3
  | TIM3_CCR2 | TIM3_CCR3 | TIM3_CCR4

text \<open>
  The trace records, in program order, every store to a register and every change of the
  interrupt mask, so that the order of the writes of one call can be stated.
\<close>

datatype event = IrqDisable | IrqEnable | IrqRestore bool | Store reg

record state =
  regs :: "reg \<Rightarrow> uint16_t"
  pwm_max :: uint16_t
  pwm_dead_time_ticks :: uint16_t
  primask :: bool
  trace :: "event list"

definition PWM_REG_HIGH :: "reg list" where
  "PWM_REG_HIGH = [TIM4_CCR1, TIM4_CCR2, TIM4_CCR3]"

definition PWM_REG_LOW :: "reg list" where
  "PWM_REG_LOW = [TIM3_CCR2, TIM3_CCR3, TIM3_CCR4]"

definition TIM4_HIGH_CCER_POL :: "headers \<Rightarrow> uint16_t list" where
  "TIM4_HIGH_CCER_POL h = [TIM_CCER_CC1P h, TIM_CCER_CC2P h, TIM_CCER_CC3P h]"

definition TIM3_LOW_CCER_POL :: "headers \<Rightarrow> uint16_t list" where
  "TIM3_LOW_CCER_POL h = [TIM_CCER_CC2P h, TIM_CCER_CC3P h, TIM_CCER_CC4P h]"

text \<open>A store to a memory-mapped register: \<open>*r = v\<close>, \<open>r |= m\<close> and \<open>r &= ~m\<close>.\<close>

definition store :: "reg \<Rightarrow> uint16_t \<Rightarrow> state \<Rightarrow> state" where
  "store r v s = s\<lparr>regs := (regs s)(r := v), trace := trace s @ [Store r]\<rparr>"

definition set_bits :: "reg \<Rightarrow> uint16_t \<Rightarrow> state \<Rightarrow> state" where
  "set_bits r m s = store r (regs s r OR m) s"

definition clear_bits :: "reg \<Rightarrow> uint16_t \<Rightarrow> state \<Rightarrow> state" where
  "clear_bits r m s = store r (regs s r AND NOT m) s"

text \<open>
  Modelled from the spec: the interrupt-control collaborator (\<open>irq_primask_disable\<close>,
  \<open>irq_primask_enable\<close>, \<open>irq_primask_save\<close>, \<open>irq_primask_restore\<close>) is not among
  the sources. The spec gives it as "disable-all/enable-all, and save-state/restore-state
  pairs (for nested-safe critical sections)": saving masks the interrupts and returns
  the mask as it was, restoring puts that mask back.
\<close>

definition irq_primask_disable :: "state \<Rightarrow> state" where
  "irq_primask_disable s = s\<lparr>primask := True, trace := trace s @ [IrqDisable]\<rparr>"

definition irq_primask_enable :: "state \<Rightarrow> state" where
  "irq_primask_enable s = s\<lparr>primask := False, trace := trace s @ [IrqEnable]\<rparr>"

definition irq_primask_save :: "state \<Rightarrow> bool \<times> state" where
  "irq_primask_save s = (primask s, s\<lparr>primask := True, trace := trace s @ [IrqDisable]\<rparr>)"

definition irq_primask_restore :: "bool \<Rightarrow> state \<Rightarrow> state" where
  "irq_primask_restore st s = s\<lparr>primask := st, trace := trace s @ [IrqRestore st]\<rparr>"

subsection \<open>motor_pwm_compute_pwm_val\<close>

text \<open>
  The duty code is promoted to \<open>int\<close> and shifted right; the difference, the halving and
  the second difference are computed in \<open>uint_fast16_t\<close>; the result is stored into the
  16-bit field and clamped to \<open>_pwm_max\<close>. The two assertions at the end are checked
  unless \<open>NDEBUG\<close> is defined. The out-parameter is the function's result; every caller
  in the file passes the address of a local, so the assertion on the pointer holds.
  The shift count is a compile-time constant; C defines the shift for counts 0 to 31.
\<close>

definition motor_pwm_compute_pwm_val :: "headers \<Rightarrow> state \<Rightarrow> uint16_t \<Rightarrow> error + motor_pwm_val" where
  "motor_pwm_compute_pwm_val h s duty_cycle =
    (let corrected_duty_cycle =
           (drop_bit (MOTOR_PWM_DUTY_CYCLE_RESOLUTION h - PWM_TRUE_RESOLUTION)
              (ucast duty_cycle :: uint_fast16_t));
         normalized =
           (ucast (word_of_int PWM_TOP - (word_of_int PWM_TOP - corrected_duty_cycle) div 2
              :: uint_fast16_t) :: uint16_t);
         clamped = (if normalized > pwm_max s then pwm_max s else normalized)
     in if \<not> NDEBUG h \<and> \<not> (uint clamped \<ge> PWM_HALF_TOP) then Inl AssertionFailed
        else if \<not> NDEBUG h \<and> \<not> (uint clamped \<le> PWM_TOP) then Inl AssertionFailed
        else Inr \<lparr>normalized_duty_cycle = clamped\<rparr>)"

subsection \<open>phase_set_i\<close>

text \<open>
  The function is static and assumes that the caller has masked the interrupts. With the
  assertions compiled in, a phase outside 0..2 aborts; with them compiled out it would
  index the four tables out of bounds. The duty value is passed by value: the one caller
  in the file passes the address of a local, so the assertion on the pointer holds.
\<close>

definition phase_set_i :: "headers \<Rightarrow> state \<Rightarrow> int \<Rightarrow> motor_pwm_val \<Rightarrow> bool \<Rightarrow> error + state" where
  "phase_set_i h s phase pwm_val inverted =
    (if \<not> (phase \<ge> 0 \<and> phase < 3) then
       (if NDEBUG h then Inl UndefinedBehaviour else Inl AssertionFailed)
     else
       let duty_cycle_high = (ucast (normalized_duty_cycle pwm_val) :: uint_fast16_t);
           duty_cycle_low = (ucast (normalized_duty_cycle pwm_val) :: uint_fast16_t);
           dead = (ucast (pwm_dead_time_ticks s) :: uint_fast16_t);
           above = (uint (normalized_duty_cycle pwm_val) > PWM_HALF_TOP);
           p = nat phase;
           (s2, duty_cycle_high', duty_cycle_low') =
             (if inverted then
                let s1 = clear_bits TIM3_CCER (TIM3_LOW_CCER_POL h ! p) s;
                    s2 = set_bits TIM4_CCER (TIM4_HIGH_CCER_POL h ! p) s1
                in if above then (s2, duty_cycle_high, duty_cycle_low - dead)
                   else (s2, duty_cycle_high + dead, duty_cycle_low)
              else
                let s1 = set_bits TIM3_CCER (TIM3_LOW_CCER_POL h ! p) s;
                    s2 = clear_bits TIM4_CCER (TIM4_HIGH_CCER_POL h ! p) s1
                in if above then (s2, duty_cycle_high - dead, duty_cycle_low)
                   else (s2, duty_cycle_high, duty_cycle_low + dead));
           s3 = store (PWM_REG_HIGH ! p) (ucast duty_cycle_high') s2
       in Inr (store (PWM_REG_LOW ! p) (ucast duty_cycle_low') s3))"

subsection \<open>motor_pwm_manip\<close>

text \<open>
  A phase outside 0..2 hits \<open>assert(0)\<close> and, when the assertions are compiled out, the
  \<open>return\<close> behind it. Any command other than HIGH and HALF takes the second branch,
  where only LOW is told apart from the rest.
\<close>

definition motor_pwm_manip :: "headers \<Rightarrow> state \<Rightarrow> int \<Rightarrow> motor_pwm_phase_manip \<Rightarrow> error + state" where
  "motor_pwm_manip h s phase command =
    (if phase < 0 \<or> phase > 2 then
       (if NDEBUG h then Inr s else Inl AssertionFailed)
     else if command = MOTOR_PWM_MANIP_HIGH \<or> command = MOTOR_PWM_MANIP_HALF then
       let duty_cycle =
             (if command = MOTOR_PWM_MANIP_HIGH then MOTOR_PWM_DUTY_CYCLE_MAX h else 0)
       in case motor_pwm_compute_pwm_val h s duty_cycle of
            Inl e \<Rightarrow> Inl e
          | Inr pwm_val \<Rightarrow>
              (case phase_set_i h (irq_primask_disable s) phase pwm_val False of
                 Inl e \<Rightarrow> Inl e
               | Inr s' \<Rightarrow> Inr (irq_primask_enable s'))
     else
       let p = nat phase;
           s1 = irq_primask_disable s;
           s2 = clear_bits TIM3_CCER (TIM3_LOW_CCER_POL h ! p) s1;
           s3 = clear_bits TIM4_CCER (TIM4_HIGH_CCER_POL h ! p) s2;
           s4 = irq_primask_enable s3;
           s5 = store (PWM_REG_HIGH ! p) 0 s4
       in if command = MOTOR_PWM_MANIP_LOW
          then Inr (store (PWM_REG_LOW ! p) (word_of_int PWM_TOP) s5)
          else Inr (store (PWM_REG_LOW ! p) 0 s5))"

subsection \<open>motor_pwm_set_freewheeling\<close>

text \<open>The loop \<open>for (int phase = 0; phase < 3; phase++)\<close>, stopping where a call aborts.\<close>

function set_freewheeling_loop :: "headers \<Rightarrow> int \<Rightarrow> state \<Rightarrow> error + state" where
  "set_freewheeling_loop h phase s =
    (if phase < 3 then
       (case motor_pwm_manip h s phase MOTOR_PWM_MANIP_FLOATING of
          Inl e \<Rightarrow> Inl e
        | Inr s' \<Rightarrow> set_freewheeling_loop h (phase + 1) s')
     else Inr s)"
  by pat_completeness auto
termination
  by (relation "measure (\<lambda>(h, phase, s). nat (3 - phase))") auto

definition motor_pwm_set_freewheeling :: "headers \<Rightarrow> state \<Rightarrow> error + state" where
  "motor_pwm_set_freewheeling h s = set_freewheeling_loop h 0 s"

subsection \<open>motor_pwm_emergency\<close>

function emergency_loop :: "headers \<Rightarrow> int \<Rightarrow> state \<Rightarrow> state" where
  "emergency_loop h phase s =
    (if phase < 3 then
       let p = nat phase;
           s1 = clear_bits TIM3_CCER (TIM3_LOW_CCER_POL h ! p) s;
           s2 = clear_bits TIM4_CCER (TIM4_HIGH_CCER_POL h ! p) s1;
           s3 = store (PWM_REG_HIGH ! p) 0 s2;
           s4 = store (PWM_REG_LOW ! p) 0 s3
       in emergency_loop h (phase + 1) s4
     else s)"
  by pat_completeness auto
termination
  by (relation "measure (\<lambda>(h, phase, s). nat (3 - phase))") auto

definition motor_pwm_emergency :: "headers \<Rightarrow> state \<Rightarrow> state" where
  "motor_pwm_emergency h s =
    (let (irqstate, s1) = irq_primask_save s;
         s2 = emergency_loop h 0 s1
     in irq_primask_restore irqstate s2)"

subsection \<open>Single-precision arithmetic\<close>

text \<open>
  The limits are derived in \<open>float\<close>, IEEE 754 binary32 on the target: every operation
  yields the exact result rounded to the nearest value with a 24-bit significand, ties
  to the even significand. A finite binary32 value is a rational number. The model covers
  finite results only; the quantities of \<open>motor_pwm_init\<close> stay finite because the
  timer clock is a nonzero 32-bit integer.

  \<open>binary32_exponent x\<close> is the exponent \<open>e\<close> with \<open>2 ^ e \<le> x < 2 ^ (e + 1)\<close> for a
  positive \<open>x\<close>, and not below -126, the exponent of the subnormal numbers: the count of
  doublings stops at 126.
\<close>

definition round_ties_even :: "rat \<Rightarrow> int" where
  "round_ties_even x =
    (let f = \<lfloor>x\<rfloor>; r = x - of_int f
     in if r < 1 / 2 then f else if 1 / 2 < r then f + 1 else if even f then f else f + 1)"

fun halvings :: "nat \<Rightarrow> rat \<Rightarrow> nat" where
  "halvings 0 x = 0"
| "halvings (Suc n) x = (if x < 2 then 0 else Suc (halvings n (x / 2)))"

fun doublings :: "nat \<Rightarrow> rat \<Rightarrow> nat" where
  "doublings 0 x = 0"
| "doublings (Suc n) x = (if 1 \<le> x then 0 else Suc (doublings n (2 * x)))"

definition binary32_exponent :: "rat \<Rightarrow> int" where
  "binary32_exponent x = (if 1 \<le> x then int (halvings 128 x) else - int (doublings 126 x))"

definition pow2 :: "int \<Rightarrow> rat" where
  "pow2 e = (if 0 \<le> e then 2 ^ nat e else 1 / 2 ^ nat (- e))"

definition round_binary32 :: "rat \<Rightarrow> rat" where
  "round_binary32 x =
    (let q = binary32_exponent \<bar>x\<bar> - 23
     in of_int (round_ties_even (x / pow2 q)) * pow2 q)"

definition f32_div :: "rat \<Rightarrow> rat \<Rightarrow> rat" where
  "f32_div a b = round_binary32 (a / b)"

definition f32_mul :: "rat \<Rightarrow> rat \<Rightarrow> rat" where
  "f32_mul a b = round_binary32 (a * b)"

text \<open>The conversion \<open>(uint16_t)x\<close> of a float drops the fraction.\<close>

definition float_to_uint16 :: "rat \<Rightarrow> uint16_t" where
  "float_to_uint16 x = word_of_int \<lfloor>x\<rfloor>"

subsection \<open>motor_pwm_init\<close>

text \<open>
  The model is the part of the function that derives the two limits and sets the phases
  floating (from the comment "PWM limits" on). The two calls before it bring the timers
  up; the model starts from any state of the registers instead. \<open>assert_always\<close> is
  checked in every build. The integer operands (the timer clock, 300, 400, \<open>PWM_TOP\<close>)
  are converted to \<open>float\<close> first; \<open>1e9f\<close> is a binary32 value as it stands, \<open>0.05f\<close>
  is the binary32 value nearest to 1/20. A division by zero is undefined in C.
\<close>

definition motor_pwm_init :: "headers \<Rightarrow> state \<Rightarrow> error + state" where
  "motor_pwm_init h s =
    (let PWM_TIMER_FREQUENCY = round_binary32 (of_nat (unat (STM32_TIMCLK1 h)))
     in if PWM_TIMER_FREQUENCY = 0 then Inl UndefinedBehaviour
     else
       let pwm_clock_period = f32_div 1 PWM_TIMER_FREQUENCY
       in if pwm_clock_period = 0 then Inl UndefinedBehaviour
       else
         let pwm_min_pulse_len =
               f32_div (round_binary32 (of_nat PWM_MIN_PULSE_NANOSEC)) 1000000000;
             pwm_min_pulse_ticks_float = f32_div pwm_min_pulse_len pwm_clock_period;
             limit = f32_mul (round_binary32 (of_int PWM_TOP)) (round_binary32 (5 / 100))
         in if \<not> (pwm_min_pulse_ticks_float \<ge> 0) then Inl AssertionFailed
            else if \<not> (pwm_min_pulse_ticks_float < limit) then Inl AssertionFailed
            else
              let pwm_min_pulse_ticks = float_to_uint16 pwm_min_pulse_ticks_float;
                  s1 = s\<lparr>pwm_max :=
                         word_of_int (PWM_TOP - (uint pwm_min_pulse_ticks div 2 + 1))\<rparr>;
                  pwm_dead_time =
                    f32_div (round_binary32 (of_nat PWM_DEAD_TIME_NANOSEC)) 1000000000;
                  pwm_dead_time_ticks_float = f32_div pwm_dead_time pwm_clock_period
              in if \<not> (pwm_dead_time_ticks_float \<ge> 0) then Inl AssertionFailed
                 else if \<not> (pwm_dead_time_ticks_float < limit) then Inl AssertionFailed
                 else
                   let s2 = s1\<lparr>pwm_dead_time_ticks :=
                              float_to_uint16 pwm_dead_time_ticks_float\<rparr>
                   in motor_pwm_set_freewheeling h s2)"

text \<open>
  The derivation as the spec words it, in exact arithmetic:
  "ticks = (time_ns / 1e9) * frequency, truncated to integer" and
  "pwm_max = top - (minimum_pulse_ticks/2 + 1)".
\<close>

definition spec_ticks :: "nat \<Rightarrow> nat \<Rightarrow> int" where
  "spec_ticks time_ns frequency = \<lfloor>(of_nat time_ns / 1000000000 :: rat) * of_nat frequency\<rfloor>"

definition spec_pwm_max :: "int \<Rightarrow> int \<Rightarrow> int" where
  "spec_pwm_max top_count minimum_pulse_ticks = top_count - (minimum_pulse_ticks div 2 + 1)"

subsection \<open>Observations on the state\<close>

text \<open>
  The compare values of a phase and its two polarity-inversion bits, read through the
  file's own tables.
\<close>

definition compare_high :: "state \<Rightarrow> int \<Rightarrow> uint16_t" where
  "compare_high s phase = regs s (PWM_REG_HIGH ! nat phase)"

definition compare_low :: "state \<Rightarrow> int \<Rightarrow> uint16_t" where
  "compare_low s phase = regs s (PWM_REG_LOW ! nat phase)"

definition high_inverted :: "headers \<Rightarrow> state \<Rightarrow> int \<Rightarrow> bool" where
  "high_inverted h s phase = (regs s TIM4_CCER AND TIM4_HIGH_CCER_POL h ! nat phase \<noteq> 0)"

definition low_inverted :: "headers \<Rightarrow> state \<Rightarrow> int \<Rightarrow> bool" where
  "low_inverted h s phase = (regs s TIM3_CCER AND TIM3_LOW_CCER_POL h ! nat phase \<noteq> 0)"

text \<open>A phase that is switched off: no pulse on either side, no inversion.\<close>

definition phase_off :: "headers \<Rightarrow> state \<Rightarrow> int \<Rightarrow> bool" where
  "phase_off h s phase \<longleftrightarrow>
     compare_high s phase = 0 \<and> compare_low s phase = 0 \<and>
     \<not> high_inverted h s phase \<and> \<not> low_inverted h s phase"

text \<open>
  The events that one call adds to the trace, and the ordering guarantee of the spec as
  a predicate on them: the call masks the interrupts, stores to the polarity registers,
  then stores to compare registers, then unmasks, and does nothing else.
\<close>

definition events_of :: "state \<Rightarrow> error + state \<Rightarrow> event list" where
  "events_of s r = (case r of Inl e \<Rightarrow> [] | Inr s' \<Rightarrow> drop (length (trace s)) (trace s'))"

fun polarity_store :: "event \<Rightarrow> bool" where
  "polarity_store (Store r) = (r = TIM3_CCER \<or> r = TIM4_CCER)"
| "polarity_store e = False"

fun compare_store :: "event \<Rightarrow> bool" where
  "compare_store (Store r) = (r \<noteq> TIM3_CCER \<and> r \<noteq> TIM4_CCER)"
| "compare_store e = False"

definition one_masked_section :: "event list \<Rightarrow> bool" where
  "one_masked_section es =
    (case es of
       IrqDisable # rest \<Rightarrow>
         dropWhile compare_store (dropWhile polarity_store rest) = [IrqEnable]
     | _ \<Rightarrow> False)"

subsection \<open>A sample configuration\<close>

text \<open>
  The theorems below hold for every value of the parameters and every state that meets
  their hypotheses. The instances that show the hypotheses can be met use this
  configuration: the polarity bits 1, 5, 9 and 13 of a CCER register, a timer clock of
  72 MHz, duty codes of 16 bits, assertions compiled in; and a state whose limits are
  the ones that initialisation derives at 72 MHz, with arbitrary register contents.
\<close>

definition sample_headers :: headers where
  "sample_headers =
    \<lparr>NDEBUG = False, STM32_TIMCLK1 = 72000000,
     MOTOR_PWM_DUTY_CYCLE_RESOLUTION = 16, MOTOR_PWM_DUTY_CYCLE_MAX = 0xFFFF,
     TIM_CCER_CC1P = 0x0002, TIM_CCER_CC2P = 0x0020,
     TIM_CCER_CC3P = 0x0200, TIM_CCER_CC4P = 0x2000\<rparr>"

definition sample_state :: state where
  "sample_state =
    \<lparr>regs = (\<lambda>r. 0x2222), pwm_max = 1012, pwm_dead_time_ticks = 28,
     primask = False, trace = []\<rparr>"

section \<open>Properties\<close>

subsection \<open>Constants, narrowing stores and the tables\<close>

lemma PWM_TOP_val: "PWM_TOP = 1023"
  by (simp add: PWM_TOP_def PWM_TRUE_RESOLUTION_def)

lemma PWM_HALF_TOP_val: "PWM_HALF_TOP = 512"
  by (simp add: PWM_HALF_TOP_def PWM_TRUE_RESOLUTION_def)

text \<open>
  A sum or difference formed in \<open>uint_fast16_t\<close> and stored to a 16-bit register is the
  16-bit sum or difference.
\<close>

lemma narrow_sub:
  "(ucast ((ucast (a :: uint16_t) :: uint_fast16_t) - ucast (b :: uint16_t)) :: uint16_t) = a - b"
  by transfer (simp add: take_bit_diff)

lemma narrow_add:
  "(ucast ((ucast (a :: uint16_t) :: uint_fast16_t) + ucast (b :: uint16_t)) :: uint16_t) = a + b"
  by transfer (simp add: take_bit_add)

lemma narrow_widen: "(ucast (ucast (a :: uint16_t) :: uint_fast16_t) :: uint16_t) = a"
  by transfer simp

lemma phase_cases: "0 \<le> phase \<Longrightarrow> phase \<le> 2 \<Longrightarrow> phase = 0 \<or> phase = 1 \<or> phase = (2::int)"
  by arith

lemma phase_regs_distinct:
  assumes "0 \<le> phase" and "phase \<le> 2"
  shows "PWM_REG_HIGH ! nat phase \<noteq> PWM_REG_LOW ! nat phase"
    and "PWM_REG_HIGH ! nat phase \<noteq> TIM3_CCER" and "PWM_REG_HIGH ! nat phase \<noteq> TIM4_CCER"
    and "PWM_REG_LOW ! nat phase \<noteq> TIM3_CCER" and "PWM_REG_LOW ! nat phase \<noteq> TIM4_CCER"
  using phase_cases [OF assms] by (auto simp: PWM_REG_HIGH_def PWM_REG_LOW_def)

subsection \<open>What one call of phase_set_i writes\<close>

lemma phase_set_i_in_range:
  assumes "0 \<le> phase" and "phase \<le> 2"
  shows "phase_set_i h s phase v inverted =
    Inr (s\<lparr>regs := (regs s)
            (TIM3_CCER :=
               (if inverted then regs s TIM3_CCER AND NOT (TIM3_LOW_CCER_POL h ! nat phase)
                else regs s TIM3_CCER OR TIM3_LOW_CCER_POL h ! nat phase),
             TIM4_CCER :=
               (if inverted then regs s TIM4_CCER OR TIM4_HIGH_CCER_POL h ! nat phase
                else regs s TIM4_CCER AND NOT (TIM4_HIGH_CCER_POL h ! nat phase)),
             PWM_REG_HIGH ! nat phase :=
               (if inverted \<and> \<not> PWM_HALF_TOP < uint (normalized_duty_cycle v)
                then normalized_duty_cycle v + pwm_dead_time_ticks s
                else if \<not> inverted \<and> PWM_HALF_TOP < uint (normalized_duty_cycle v)
                then normalized_duty_cycle v - pwm_dead_time_ticks s
                else normalized_duty_cycle v),
             PWM_REG_LOW ! nat phase :=
               (if inverted \<and> PWM_HALF_TOP < uint (normalized_duty_cycle v)
                then normalized_duty_cycle v - pwm_dead_time_ticks s
                else if \<not> inverted \<and> \<not> PWM_HALF_TOP < uint (normalized_duty_cycle v)
                then normalized_duty_cycle v + pwm_dead_time_ticks s
                else normalized_duty_cycle v)),
          trace := trace s @ [Store TIM3_CCER, Store TIM4_CCER,
                              Store (PWM_REG_HIGH ! nat phase), Store (PWM_REG_LOW ! nat phase)]\<rparr>)"
  using assms
  by (simp add: phase_set_i_def Let_def store_def set_bits_def clear_bits_def
       narrow_sub narrow_add narrow_widen)

subsection \<open>C1: the dead-time rule of set_phase\<close>

text \<open>
  C1. For every phase in 0..2, every \<open>inverted\<close> flag and every normalized duty \<open>d\<close>,
  \<open>phase_set_i\<close> returns, and the compare values it leaves follow the rule table:
  not inverted and \<open>d > half_top\<close> gives \<open>high = d - dead_time\<close>; not inverted and
  \<open>d \<le> half_top\<close> gives \<open>low = d + dead_time\<close>; inverted and \<open>d > half_top\<close> gives
  \<open>low = d - dead_time\<close>; inverted and \<open>d \<le> half_top\<close> gives \<open>high = d + dead_time\<close>;
  the other value equals \<open>d\<close> in each case. With a nonzero dead time exactly one of the
  two values differs from \<open>d\<close>. The differences are those of 16-bit words; for a dead
  time of at most \<open>half_top + 1\<close> ticks (28 after initialisation) nothing wraps, and the
  two values together are exactly the dead time away from \<open>d\<close> as integers.
\<close>

theorem set_phase_dead_time_rule:
  assumes "0 \<le> phase" and "phase \<le> 2"
  shows "\<exists>s'. phase_set_i h s phase \<lparr>normalized_duty_cycle = d\<rparr> inverted = Inr s' \<and>
    (\<not> inverted \<and> PWM_HALF_TOP < uint d \<longrightarrow>
       compare_high s' phase = d - pwm_dead_time_ticks s \<and> compare_low s' phase = d) \<and>
    (\<not> inverted \<and> uint d \<le> PWM_HALF_TOP \<longrightarrow>
       compare_low s' phase = d + pwm_dead_time_ticks s \<and> compare_high s' phase = d) \<and>
    (inverted \<and> PWM_HALF_TOP < uint d \<longrightarrow>
       compare_low s' phase = d - pwm_dead_time_ticks s \<and> compare_high s' phase = d) \<and>
    (inverted \<and> uint d \<le> PWM_HALF_TOP \<longrightarrow>
       compare_high s' phase = d + pwm_dead_time_ticks s \<and> compare_low s' phase = d) \<and>
    (pwm_dead_time_ticks s \<noteq> 0 \<longrightarrow>
       (compare_high s' phase = d) \<noteq> (compare_low s' phase = d)) \<and>
    (uint (pwm_dead_time_ticks s) \<le> PWM_HALF_TOP + 1 \<longrightarrow>
       \<bar>uint (compare_high s' phase) - uint d\<bar> + \<bar>uint (compare_low s' phase) - uint d\<bar>
         = uint (pwm_dead_time_ticks s))"
proof -
  note distinct = phase_regs_distinct [OF assms]
  have no_borrow:
    "uint (d - pwm_dead_time_ticks s) = uint d - uint (pwm_dead_time_ticks s)"
    if "PWM_HALF_TOP < uint d" "uint (pwm_dead_time_ticks s) \<le> PWM_HALF_TOP + 1"
    using that by (simp add: PWM_HALF_TOP_val uint_sub_if' word_le_def)
  have no_carry:
    "uint (d + pwm_dead_time_ticks s) = uint d + uint (pwm_dead_time_ticks s)"
    if "uint d \<le> PWM_HALF_TOP" "uint (pwm_dead_time_ticks s) \<le> PWM_HALF_TOP + 1"
    using that by (simp add: PWM_HALF_TOP_val uint_plus_if')
  show ?thesis
    using distinct no_borrow no_carry
    by (cases inverted; cases "PWM_HALF_TOP < uint d")
       (simp_all add: phase_set_i_in_range [OF assms] compare_high_def compare_low_def)
qed

theorem set_phase_dead_time_rule_witness:
  "(0::int) \<le> 1 \<and> (1::int) \<le> 2 \<and>
   (\<exists>s'. phase_set_i sample_headers sample_state 1 \<lparr>normalized_duty_cycle = 600\<rparr> False = Inr s' \<and>
      compare_high s' 1 = 572 \<and> compare_low s' 1 = 600)"
  using set_phase_dead_time_rule [of 1 sample_headers sample_state 600 False]
  by (auto simp: sample_state_def PWM_HALF_TOP_val)

subsection \<open>C2: the range of the normalized duty\<close>

text \<open>
  With a duty resolution of 16 bits the shifted code is at most 1023, so neither
  difference borrows and the value before the clamp is
  \<open>1023 - (1023 - code div 64) div 2\<close>, between 512 and 1023.
\<close>

lemma corrected_le:
  assumes "6 \<le> k"
  shows "uint (drop_bit k (ucast (d :: uint16_t) :: uint_fast16_t)) \<le> 1023"
proof -
  have d: "0 \<le> uint d" "uint d < 65536"
    using unsigned_less [of d, where 'a = int] by simp_all
  then have "uint (drop_bit k (ucast d :: uint_fast16_t)) = drop_bit k (uint d)"
    by (simp add: unsigned_drop_bit_eq unsigned_ucast_eq take_bit_eq_mod)
  also have "\<dots> = uint d div 2 ^ k" by (simp add: drop_bit_eq_div)
  also have "\<dots> \<le> uint d div 64"
    using power_increasing [OF assms, of "2 :: int"] d by (intro zdiv_mono2) simp_all
  also have "\<dots> \<le> 1023"
    using d by arith
  finally show ?thesis .
qed

lemma normalize_range:
  fixes c :: uint_fast16_t
  assumes "uint c \<le> 1023"
  shows "uint (ucast (1023 - (1023 - c) div 2 :: uint_fast16_t) :: uint16_t) = 1023 - (1023 - uint c) div 2"
proof -
  have c0: "0 \<le> uint c" by simp
  have c: "c \<le> 1023" using assms by (simp add: word_le_def)
  have 1: "uint (1023 - c) = 1023 - uint c"
    using c by (simp add: uint_sub_if' word_le_def)
  have 2: "uint ((1023 - c) div 2) = (1023 - uint c) div 2"
    by (simp add: uint_div 1)
  have "(1023 - uint c) div 2 \<le> 1023" using assms c0 by arith
  then have 3: "(1023 - c) div 2 \<le> 1023"
    by (simp add: word_le_def 2)
  have 4: "uint (1023 - (1023 - c) div 2) = 1023 - (1023 - uint c) div 2"
    using 3 by (simp add: uint_sub_if' word_le_def 2)
  have 5: "0 \<le> 1023 - (1023 - uint c) div 2" "1023 - (1023 - uint c) div 2 < 65536"
    using assms c0 by arith+
  show ?thesis
    using 5 by (simp add: unsigned_ucast_eq 4 take_bit_eq_mod)
qed


lemma compute_pwm_val_result:
  assumes "MOTOR_PWM_DUTY_CYCLE_RESOLUTION h = 16"
    and "PWM_HALF_TOP \<le> uint (pwm_max s)"
  shows "\<exists>n0. motor_pwm_compute_pwm_val h s duty_cycle =
            Inr \<lparr>normalized_duty_cycle = (if pwm_max s < n0 then pwm_max s else n0)\<rparr> \<and>
          uint n0 = 1023 - (1023 - uint duty_cycle div 64) div 2"
proof -
  define c where "c = drop_bit 6 (ucast duty_cycle :: uint_fast16_t)"
  define n0 where "n0 = (ucast (1023 - (1023 - c) div 2) :: uint16_t)"
  have d: "0 \<le> uint duty_cycle" "uint duty_cycle < 65536"
    using unsigned_less [of duty_cycle, where 'a = int] by simp_all
  then have c_val: "uint c = uint duty_cycle div 64"
    by (simp add: c_def unsigned_drop_bit_eq unsigned_ucast_eq take_bit_eq_mod drop_bit_eq_div
        uint_div)
  have c_le: "uint c \<le> 1023"
    unfolding c_def by (rule corrected_le) simp
  have n0_val: "uint n0 = 1023 - (1023 - uint duty_cycle div 64) div 2"
    unfolding n0_def using normalize_range [OF c_le] by (simp add: c_val)
  have c0: "0 \<le> uint c" by simp
  have n0_range: "512 \<le> uint n0" "uint n0 \<le> 1023"
    using c_le c0 unfolding n0_val c_val [symmetric] by arith+
  have clamp: "512 \<le> uint (if pwm_max s < n0 then pwm_max s else n0)"
    "uint (if pwm_max s < n0 then pwm_max s else n0) \<le> 1023"
    using n0_range assms(2) by (auto simp: PWM_HALF_TOP_val word_less_def)
  have "motor_pwm_compute_pwm_val h s duty_cycle =
      Inr \<lparr>normalized_duty_cycle = (if pwm_max s < n0 then pwm_max s else n0)\<rparr>"
    using clamp
    by (auto simp: motor_pwm_compute_pwm_val_def Let_def assms(1) PWM_TRUE_RESOLUTION_def
        PWM_TOP_val PWM_HALF_TOP_val c_def [symmetric] n0_def [symmetric] split: if_splits)
  with n0_val show ?thesis by blast
qed

text \<open>
  C2. For every 16-bit duty code at the full external resolution (16 bits), and with the
  limit \<open>_pwm_max\<close> at or above \<open>half_top\<close> (it is 1012 after initialisation),
  \<open>motor_pwm_compute_pwm_val\<close> returns a value (no assertion fires), and that value
  is at least \<open>half_top\<close>, at most \<open>_pwm_max\<close> and at most \<open>top\<close>.
\<close>

theorem compute_pwm_val_range:
  assumes "MOTOR_PWM_DUTY_CYCLE_RESOLUTION h = 16"
    and "PWM_HALF_TOP \<le> uint (pwm_max s)"
  shows "\<exists>v. motor_pwm_compute_pwm_val h s duty_cycle = Inr v \<and>
    PWM_HALF_TOP \<le> uint (normalized_duty_cycle v) \<and>
    normalized_duty_cycle v \<le> pwm_max s \<and>
    uint (normalized_duty_cycle v) \<le> PWM_TOP"
proof -
  obtain n0 where r: "motor_pwm_compute_pwm_val h s duty_cycle =
        Inr \<lparr>normalized_duty_cycle = (if pwm_max s < n0 then pwm_max s else n0)\<rparr>"
    and n0: "uint n0 = 1023 - (1023 - uint duty_cycle div 64) div 2"
    using compute_pwm_val_result [OF assms] by blast
  have d: "0 \<le> uint duty_cycle" "uint duty_cycle < 65536"
    using unsigned_less [of duty_cycle, where 'a = int] by simp_all
  have "512 \<le> uint n0" "uint n0 \<le> 1023"
    unfolding n0 using d by arith+
  then show ?thesis
    using assms(2) unfolding r
    by (auto simp: PWM_HALF_TOP_val PWM_TOP_val word_less_def word_le_def)
qed

theorem compute_pwm_val_range_witness:
  "MOTOR_PWM_DUTY_CYCLE_RESOLUTION sample_headers = 16 \<and>
   PWM_HALF_TOP \<le> uint (pwm_max sample_state) \<and>
   (\<exists>v. motor_pwm_compute_pwm_val sample_headers sample_state 32768 = Inr v \<and>
     PWM_HALF_TOP \<le> uint (normalized_duty_cycle v) \<and>
     normalized_duty_cycle v \<le> pwm_max sample_state \<and>
     uint (normalized_duty_cycle v) \<le> PWM_TOP)"
  using compute_pwm_val_range [of sample_headers sample_state 32768]
  by (simp add: sample_headers_def sample_state_def PWM_HALF_TOP_val)

subsection \<open>The branch of motor_pwm_manip that switches a phase off or low\<close>

lemma cleared_own: "(x AND NOT m) AND m = (0 :: 'a::len word)"
  by (rule bit_word_eqI) (auto simp: bit_simps)

lemma cleared_stays: "x AND m' = 0 \<Longrightarrow> (x AND NOT m) AND m' = (0 :: 'a::len word)"
  by (metis and.left_commute and.commute and_zero_eq)

lemma manip_off_in_range:
  assumes "0 \<le> phase" and "phase \<le> 2"
    and "command \<noteq> MOTOR_PWM_MANIP_HIGH" and "command \<noteq> MOTOR_PWM_MANIP_HALF"
  shows "motor_pwm_manip h s phase command =
    Inr (s\<lparr>regs := (regs s)
            (TIM3_CCER := regs s TIM3_CCER AND NOT (TIM3_LOW_CCER_POL h ! nat phase),
             TIM4_CCER := regs s TIM4_CCER AND NOT (TIM4_HIGH_CCER_POL h ! nat phase),
             PWM_REG_HIGH ! nat phase := 0,
             PWM_REG_LOW ! nat phase :=
               (if command = MOTOR_PWM_MANIP_LOW then word_of_int PWM_TOP else 0)),
          primask := False,
          trace := trace s @ [IrqDisable, Store TIM3_CCER, Store TIM4_CCER, IrqEnable,
                              Store (PWM_REG_HIGH ! nat phase), Store (PWM_REG_LOW ! nat phase)]\<rparr>)"
  using assms
  by (simp add: motor_pwm_manip_def Let_def store_def clear_bits_def
       irq_primask_disable_def irq_primask_enable_def)

text \<open>
  A phase is off when both compare values are zero and neither polarity bit is set.
  Switching one phase off or low leaves every other phase that was off as it was: the
  stores go to that phase's own compare registers, and clearing bits of a CCER register
  sets none.
\<close>

lemma manip_floating_off:
  assumes "0 \<le> phase" and "phase \<le> 2"
  shows "\<exists>s'. motor_pwm_manip h s phase MOTOR_PWM_MANIP_FLOATING = Inr s' \<and>
     phase_off h s' phase \<and> pwm_max s' = pwm_max s \<and>
     pwm_dead_time_ticks s' = pwm_dead_time_ticks s"
  using phase_regs_distinct [OF assms]
  by (simp add: manip_off_in_range [OF assms] phase_off_def compare_high_def compare_low_def
      high_inverted_def low_inverted_def cleared_own)

lemma manip_off_keeps_off:
  assumes "0 \<le> phase" and "phase \<le> 2"
    and "command \<noteq> MOTOR_PWM_MANIP_HIGH" and "command \<noteq> MOTOR_PWM_MANIP_HALF"
    and "0 \<le> q" and "q \<le> 2" and "q \<noteq> phase" and "phase_off h s q"
    and "motor_pwm_manip h s phase command = Inr s'"
  shows "phase_off h s' q"
  using phase_cases [OF assms(1,2)] phase_cases [OF assms(5,6)] assms(7,8)
    assms(9) [unfolded manip_off_in_range [OF assms(1-4)]]
  by (auto simp: phase_off_def compare_high_def compare_low_def
      high_inverted_def low_inverted_def cleared_stays PWM_REG_HIGH_def PWM_REG_LOW_def)

lemma set_freewheeling_all_off:
  "\<exists>s'. motor_pwm_set_freewheeling h s = Inr s' \<and>
     phase_off h s' 0 \<and> phase_off h s' 1 \<and> phase_off h s' 2 \<and>
     pwm_max s' = pwm_max s \<and> pwm_dead_time_ticks s' = pwm_dead_time_ticks s"
proof -
  obtain s1 where s1: "motor_pwm_manip h s 0 MOTOR_PWM_MANIP_FLOATING = Inr s1"
    "phase_off h s1 0" "pwm_max s1 = pwm_max s" "pwm_dead_time_ticks s1 = pwm_dead_time_ticks s"
    using manip_floating_off [of 0 h s] by auto
  obtain s2 where s2: "motor_pwm_manip h s1 1 MOTOR_PWM_MANIP_FLOATING = Inr s2"
    "phase_off h s2 1" "pwm_max s2 = pwm_max s1" "pwm_dead_time_ticks s2 = pwm_dead_time_ticks s1"
    using manip_floating_off [of 1 h s1] by auto
  obtain s3 where s3: "motor_pwm_manip h s2 2 MOTOR_PWM_MANIP_FLOATING = Inr s3"
    "phase_off h s3 2" "pwm_max s3 = pwm_max s2" "pwm_dead_time_ticks s3 = pwm_dead_time_ticks s2"
    using manip_floating_off [of 2 h s2] by auto
  have "phase_off h s2 0"
    using manip_off_keeps_off [OF _ _ _ _ _ _ _ s1(2) s2(1)] by simp
  then have 0: "phase_off h s3 0"
    using manip_off_keeps_off [OF _ _ _ _ _ _ _ _ s3(1), of 0] by simp
  have 1: "phase_off h s3 1"
    using manip_off_keeps_off [OF _ _ _ _ _ _ _ s2(2) s3(1)] by simp
  have "motor_pwm_set_freewheeling h s = Inr s3"
    by (simp add: motor_pwm_set_freewheeling_def set_freewheeling_loop.simps [of h 0]
        set_freewheeling_loop.simps [of h 1] set_freewheeling_loop.simps [of h 2]
        set_freewheeling_loop.simps [of h 3] s1(1) s2(1) s3(1))
  with 0 1 s1 s2 s3 show ?thesis by simp
qed


subsection \<open>C5: FLOATING and set_all_floating\<close>

text \<open>
  C5. For every phase in 0..2 and every prior state, \<open>motor_pwm_manip\<close> with FLOATING
  returns and leaves that phase with high compare 0, low compare 0 and both
  polarity-inversion bits cleared; and \<open>motor_pwm_set_freewheeling\<close> returns and leaves
  every phase in 0..2 in that state.
\<close>

theorem manip_floating_and_freewheeling:
  assumes "0 \<le> phase" and "phase \<le> 2"
  shows "(\<exists>s'. motor_pwm_manip h s phase MOTOR_PWM_MANIP_FLOATING = Inr s' \<and>
            compare_high s' phase = 0 \<and> compare_low s' phase = 0 \<and>
            \<not> high_inverted h s' phase \<and> \<not> low_inverted h s' phase) \<and>
         (\<exists>s'. motor_pwm_set_freewheeling h s = Inr s' \<and>
            compare_high s' phase = 0 \<and> compare_low s' phase = 0 \<and>
            \<not> high_inverted h s' phase \<and> \<not> low_inverted h s' phase)"
proof
  show "\<exists>s'. motor_pwm_manip h s phase MOTOR_PWM_MANIP_FLOATING = Inr s' \<and>
            compare_high s' phase = 0 \<and> compare_low s' phase = 0 \<and>
            \<not> high_inverted h s' phase \<and> \<not> low_inverted h s' phase"
    using manip_floating_off [OF assms, of h s] by (auto simp: phase_off_def)
next
  obtain s' where s': "motor_pwm_set_freewheeling h s = Inr s'"
    "phase_off h s' 0" "phase_off h s' 1" "phase_off h s' 2"
    using set_freewheeling_all_off [of h s] by auto
  have "phase_off h s' phase"
    using phase_cases [OF assms] s'(2-4) by auto
  with s'(1) show "\<exists>s'. motor_pwm_set_freewheeling h s = Inr s' \<and>
            compare_high s' phase = 0 \<and> compare_low s' phase = 0 \<and>
            \<not> high_inverted h s' phase \<and> \<not> low_inverted h s' phase"
    by (auto simp: phase_off_def)
qed

theorem manip_floating_and_freewheeling_witness:
  "(0::int) \<le> 2 \<and> (2::int) \<le> 2 \<and>
   (\<exists>s'. motor_pwm_manip sample_headers sample_state 2 MOTOR_PWM_MANIP_FLOATING = Inr s' \<and>
      compare_high s' 2 = 0 \<and> compare_low s' 2 = 0 \<and>
      \<not> high_inverted sample_headers s' 2 \<and> \<not> low_inverted sample_headers s' 2) \<and>
   (\<exists>s'. motor_pwm_set_freewheeling sample_headers sample_state = Inr s' \<and>
      compare_high s' 2 = 0 \<and> compare_low s' 2 = 0 \<and>
      \<not> high_inverted sample_headers s' 2 \<and> \<not> low_inverted sample_headers s' 2)"
  using manip_floating_and_freewheeling [of 2 sample_headers sample_state] by simp

subsection \<open>C6: DRIVE_LOW\<close>

text \<open>
  C6. For every phase in 0..2 and every prior state, \<open>motor_pwm_manip\<close> with LOW returns
  and leaves that phase with high compare 0, low compare \<open>top\<close> and both
  polarity-inversion bits cleared.
\<close>

theorem manip_drive_low:
  assumes "0 \<le> phase" and "phase \<le> 2"
  shows "\<exists>s'. motor_pwm_manip h s phase MOTOR_PWM_MANIP_LOW = Inr s' \<and>
     compare_high s' phase = 0 \<and> uint (compare_low s' phase) = PWM_TOP \<and>
     \<not> high_inverted h s' phase \<and> \<not> low_inverted h s' phase"
  using phase_regs_distinct [OF assms]
  by (simp add: manip_off_in_range [OF assms] compare_high_def compare_low_def
      high_inverted_def low_inverted_def cleared_own PWM_TOP_val)

theorem manip_drive_low_witness:
  "(0::int) \<le> 0 \<and> (0::int) \<le> 2 \<and>
   (\<exists>s'. motor_pwm_manip sample_headers sample_state 0 MOTOR_PWM_MANIP_LOW = Inr s' \<and>
     compare_high s' 0 = 0 \<and> compare_low s' 0 = 1023 \<and>
     \<not> high_inverted sample_headers s' 0 \<and> \<not> low_inverted sample_headers s' 0)"
  using manip_drive_low [of 0 sample_headers sample_state]
  by (auto simp: PWM_TOP_val word_uint_eq_iff)

subsection \<open>C10: a phase outside 0..2\<close>

text \<open>
  C10. For every phase index outside 0..2 and every command, with the assertions compiled
  out, \<open>motor_pwm_manip\<close> returns the state it was given: no register is written, no
  polarity bit changes, nothing is added to the trace.
\<close>

theorem manip_invalid_phase_unchanged:
  assumes "phase < 0 \<or> 2 < phase" and "NDEBUG h"
  shows "motor_pwm_manip h s phase command = Inr s"
  using assms by (auto simp: motor_pwm_manip_def)

theorem manip_invalid_phase_unchanged_witness:
  "((3::int) < 0 \<or> (2::int) < 3) \<and> NDEBUG (sample_headers\<lparr>NDEBUG := True\<rparr>) \<and>
   motor_pwm_manip (sample_headers\<lparr>NDEBUG := True\<rparr>) sample_state 3 MOTOR_PWM_MANIP_HIGH
     = Inr sample_state"
  using manip_invalid_phase_unchanged
          [of 3 "sample_headers\<lparr>NDEBUG := True\<rparr>" sample_state MOTOR_PWM_MANIP_HIGH]
  by simp

subsection \<open>C4: the emergency stop\<close>

text \<open>The registers after the three rounds of the loop, for any registers before.\<close>

lemma emergency_regs:
  "regs (motor_pwm_emergency h s) =
    (\<lambda>r. if r = TIM3_CCER then
            regs s TIM3_CCER AND NOT (TIM_CCER_CC2P h) AND NOT (TIM_CCER_CC3P h)
              AND NOT (TIM_CCER_CC4P h)
          else if r = TIM4_CCER then
            regs s TIM4_CCER AND NOT (TIM_CCER_CC1P h) AND NOT (TIM_CCER_CC2P h)
              AND NOT (TIM_CCER_CC3P h)
          else 0)"
proof (rule ext)
  fix r
  show "regs (motor_pwm_emergency h s) r =
    (if r = TIM3_CCER then
       regs s TIM3_CCER AND NOT (TIM_CCER_CC2P h) AND NOT (TIM_CCER_CC3P h)
         AND NOT (TIM_CCER_CC4P h)
     else if r = TIM4_CCER then
       regs s TIM4_CCER AND NOT (TIM_CCER_CC1P h) AND NOT (TIM_CCER_CC2P h)
         AND NOT (TIM_CCER_CC3P h)
     else 0)"
    by (cases r)
       (simp_all add: motor_pwm_emergency_def irq_primask_save_def irq_primask_restore_def
         emergency_loop.simps [of h 0] emergency_loop.simps [of h 1]
         emergency_loop.simps [of h 2] emergency_loop.simps [of h 3]
         Let_def store_def clear_bits_def PWM_REG_HIGH_def PWM_REG_LOW_def
         TIM3_LOW_CCER_POL_def TIM4_HIGH_CCER_POL_def and.assoc)
qed

lemma three_cleared:
  fixes x :: "'a::len word"
  shows "(x AND NOT a AND NOT b AND NOT c) AND a = 0"
    and "(x AND NOT a AND NOT b AND NOT c) AND b = 0"
    and "(x AND NOT a AND NOT b AND NOT c) AND c = 0"
  by (rule bit_word_eqI; auto simp: bit_simps)+

text \<open>
  C4. For every prior state, with any polarity bits and compare values, after
  \<open>motor_pwm_emergency\<close> the high and the low compare value of each phase in 0..2 are
  zero and both polarity-inversion bits of each phase are cleared.
\<close>

theorem emergency_stop_all_off:
  assumes "0 \<le> phase" and "phase \<le> 2"
  shows "compare_high (motor_pwm_emergency h s) phase = 0 \<and>
    compare_low (motor_pwm_emergency h s) phase = 0 \<and>
    \<not> high_inverted h (motor_pwm_emergency h s) phase \<and>
    \<not> low_inverted h (motor_pwm_emergency h s) phase"
  using phase_cases [OF assms]
  by (auto simp: emergency_regs compare_high_def compare_low_def high_inverted_def
      low_inverted_def PWM_REG_HIGH_def PWM_REG_LOW_def TIM3_LOW_CCER_POL_def
      TIM4_HIGH_CCER_POL_def three_cleared)

theorem emergency_stop_all_off_witness:
  "(0::int) \<le> 1 \<and> (1::int) \<le> 2 \<and>
    compare_high (motor_pwm_emergency sample_headers sample_state) 1 = 0 \<and>
    compare_low (motor_pwm_emergency sample_headers sample_state) 1 = 0 \<and>
    \<not> high_inverted sample_headers (motor_pwm_emergency sample_headers sample_state) 1 \<and>
    \<not> low_inverted sample_headers (motor_pwm_emergency sample_headers sample_state) 1"
  using emergency_stop_all_off [of 1 sample_headers sample_state] by simp

subsection \<open>C7: HIGH and HALF go through phase_set_i\<close>

text \<open>
  The first branch of \<open>motor_pwm_manip\<close>: what \<open>phase_set_i\<close> returns for the computed
  duty, with the interrupts masked around it.
\<close>

lemma manip_drive_in_range:
  assumes "0 \<le> phase" and "phase \<le> 2"
    and "command = MOTOR_PWM_MANIP_HIGH \<or> command = MOTOR_PWM_MANIP_HALF"
    and "motor_pwm_compute_pwm_val h s
           (if command = MOTOR_PWM_MANIP_HIGH then MOTOR_PWM_DUTY_CYCLE_MAX h else 0) = Inr v"
    and "phase_set_i h s phase v False = Inr s2"
  shows "motor_pwm_manip h s phase command =
    Inr (s2\<lparr>primask := False,
            trace := trace s @ [IrqDisable, Store TIM3_CCER, Store TIM4_CCER,
                      Store (PWM_REG_HIGH ! nat phase), Store (PWM_REG_LOW ! nat phase),
                      IrqEnable]\<rparr>)"
  using assms(3,4) assms(5) [unfolded phase_set_i_in_range [OF assms(1,2)]] assms(1,2)
  by (auto simp: motor_pwm_manip_def phase_set_i_in_range [OF assms(1,2)]
      irq_primask_disable_def irq_primask_enable_def)

text \<open>
  C7. For every phase in 0..2 (with 16-bit duty codes and \<open>_pwm_max\<close> at or above
  \<open>half_top\<close>, as after initialisation), \<open>motor_pwm_manip\<close> with HIGH leaves the
  registers as \<open>phase_set_i\<close> does for the duty computed from the largest duty code and
  \<open>inverted = false\<close>; with HALF it leaves them as \<open>phase_set_i\<close> does for the duty
  computed from code 0 and \<open>inverted = false\<close>, and that duty is exactly \<open>half_top\<close>.
  All the calls involved return.
\<close>

theorem manip_high_half_route_through_set_phase:
  assumes "0 \<le> phase" and "phase \<le> 2"
    and "MOTOR_PWM_DUTY_CYCLE_RESOLUTION h = 16"
    and "PWM_HALF_TOP \<le> uint (pwm_max s)"
  shows "(\<exists>v s1 s2.
            motor_pwm_compute_pwm_val h s (MOTOR_PWM_DUTY_CYCLE_MAX h) = Inr v \<and>
            phase_set_i h s phase v False = Inr s2 \<and>
            motor_pwm_manip h s phase MOTOR_PWM_MANIP_HIGH = Inr s1 \<and>
            regs s1 = regs s2) \<and>
         (\<exists>v s1 s2.
            motor_pwm_compute_pwm_val h s 0 = Inr v \<and>
            uint (normalized_duty_cycle v) = PWM_HALF_TOP \<and>
            phase_set_i h s phase v False = Inr s2 \<and>
            motor_pwm_manip h s phase MOTOR_PWM_MANIP_HALF = Inr s1 \<and>
            regs s1 = regs s2)"
proof
  obtain n0 where v: "motor_pwm_compute_pwm_val h s (MOTOR_PWM_DUTY_CYCLE_MAX h) =
      Inr \<lparr>normalized_duty_cycle = (if pwm_max s < n0 then pwm_max s else n0)\<rparr>"
    using compute_pwm_val_result [OF assms(3,4)] by blast
  obtain s2 where s2: "phase_set_i h s phase
      \<lparr>normalized_duty_cycle = (if pwm_max s < n0 then pwm_max s else n0)\<rparr> False = Inr s2"
    by (simp add: phase_set_i_in_range [OF assms(1,2)])
  show "\<exists>v s1 s2.
            motor_pwm_compute_pwm_val h s (MOTOR_PWM_DUTY_CYCLE_MAX h) = Inr v \<and>
            phase_set_i h s phase v False = Inr s2 \<and>
            motor_pwm_manip h s phase MOTOR_PWM_MANIP_HIGH = Inr s1 \<and>
            regs s1 = regs s2"
    using v s2 manip_drive_in_range [OF assms(1,2), of MOTOR_PWM_MANIP_HIGH h s _ s2]
    by simp
next
  obtain n0 where v: "motor_pwm_compute_pwm_val h s 0 =
      Inr \<lparr>normalized_duty_cycle = (if pwm_max s < n0 then pwm_max s else n0)\<rparr>"
    and n0: "uint n0 = 1023 - (1023 - uint (0 :: uint16_t) div 64) div 2"
    using compute_pwm_val_result [OF assms(3,4)] by blast
  from n0 have "uint n0 = 512" by simp
  then have half: "uint (if pwm_max s < n0 then pwm_max s else n0) = PWM_HALF_TOP"
    using assms(4) by (auto simp: PWM_HALF_TOP_val word_less_def)
  obtain s2 where s2: "phase_set_i h s phase
      \<lparr>normalized_duty_cycle = (if pwm_max s < n0 then pwm_max s else n0)\<rparr> False = Inr s2"
    by (simp add: phase_set_i_in_range [OF assms(1,2)])
  show "\<exists>v s1 s2.
            motor_pwm_compute_pwm_val h s 0 = Inr v \<and>
            uint (normalized_duty_cycle v) = PWM_HALF_TOP \<and>
            phase_set_i h s phase v False = Inr s2 \<and>
            motor_pwm_manip h s phase MOTOR_PWM_MANIP_HALF = Inr s1 \<and>
            regs s1 = regs s2"
    using v s2 half manip_drive_in_range [OF assms(1,2), of MOTOR_PWM_MANIP_HALF h s _ s2]
    by simp
qed

theorem manip_high_half_route_through_set_phase_witness:
  "(0::int) \<le> 1 \<and> (1::int) \<le> 2 \<and>
   MOTOR_PWM_DUTY_CYCLE_RESOLUTION sample_headers = 16 \<and>
   PWM_HALF_TOP \<le> uint (pwm_max sample_state) \<and>
   (\<exists>v s1 s2.
      motor_pwm_compute_pwm_val sample_headers sample_state
        (MOTOR_PWM_DUTY_CYCLE_MAX sample_headers) = Inr v \<and>
      phase_set_i sample_headers sample_state 1 v False = Inr s2 \<and>
      motor_pwm_manip sample_headers sample_state 1 MOTOR_PWM_MANIP_HIGH = Inr s1 \<and>
      regs s1 = regs s2) \<and>
   (\<exists>v s1 s2.
      motor_pwm_compute_pwm_val sample_headers sample_state 0 = Inr v \<and>
      uint (normalized_duty_cycle v) = PWM_HALF_TOP \<and>
      phase_set_i sample_headers sample_state 1 v False = Inr s2 \<and>
      motor_pwm_manip sample_headers sample_state 1 MOTOR_PWM_MANIP_HALF = Inr s1 \<and>
      regs s1 = regs s2)"
proof -
  have res: "MOTOR_PWM_DUTY_CYCLE_RESOLUTION sample_headers = 16"
    by (simp add: sample_headers_def)
  have lim: "PWM_HALF_TOP \<le> uint (pwm_max sample_state)"
    by (simp add: sample_state_def PWM_HALF_TOP_val)
  show ?thesis
    using res lim manip_high_half_route_through_set_phase [OF _ _ res lim, of 1] by simp
qed

subsection \<open>C9: no wrap-around in phase_set_i\<close>

text \<open>
  C9. For every phase in 0..2, every \<open>inverted\<close> flag and every normalized duty \<open>d\<close>
  with \<open>half_top \<le> d \<le> _pwm_max\<close>, where \<open>_pwm_max \<le> top\<close> and the dead time is below
  \<open>half_top\<close> ticks (1012 and 28 after initialisation), both compare values that
  \<open>phase_set_i\<close> stores lie in \<open>[0, top]\<close> and are the exact integer results: the
  subtraction does not go below zero and the addition does not pass \<open>top\<close>.
\<close>

theorem set_phase_no_wraparound:
  assumes "0 \<le> phase" and "phase \<le> 2"
    and "PWM_HALF_TOP \<le> uint d" and "d \<le> pwm_max s"
    and "uint (pwm_max s) \<le> PWM_TOP"
    and "uint (pwm_dead_time_ticks s) < PWM_HALF_TOP"
  shows "\<exists>s'. phase_set_i h s phase \<lparr>normalized_duty_cycle = d\<rparr> inverted = Inr s' \<and>
    uint (compare_high s' phase) \<le> PWM_TOP \<and> uint (compare_low s' phase) \<le> PWM_TOP \<and>
    uint (compare_high s' phase) =
      (if inverted \<and> \<not> PWM_HALF_TOP < uint d then uint d + uint (pwm_dead_time_ticks s)
       else if \<not> inverted \<and> PWM_HALF_TOP < uint d then uint d - uint (pwm_dead_time_ticks s)
       else uint d) \<and>
    uint (compare_low s' phase) =
      (if inverted \<and> PWM_HALF_TOP < uint d then uint d - uint (pwm_dead_time_ticks s)
       else if \<not> inverted \<and> \<not> PWM_HALF_TOP < uint d then uint d + uint (pwm_dead_time_ticks s)
       else uint d)"
proof -
  note distinct = phase_regs_distinct [OF assms(1,2)]
  have d_top: "uint d \<le> 1023"
    using assms(4,5) by (simp add: word_le_def PWM_TOP_val)
  have sub_le: "uint d - uint (pwm_dead_time_ticks s) \<le> 1023"
    using d_top uint_ge_0 [of "pwm_dead_time_ticks s"] by arith
  have add_le: "uint d + uint (pwm_dead_time_ticks s) \<le> 1023" if "\<not> PWM_HALF_TOP < uint d"
    using that assms(6) unfolding PWM_HALF_TOP_val by arith
  have no_borrow:
    "uint (d - pwm_dead_time_ticks s) = uint d - uint (pwm_dead_time_ticks s)"
    if "PWM_HALF_TOP < uint d"
    using that assms(6) by (simp add: PWM_HALF_TOP_val uint_sub_if' word_le_def)
  have no_carry:
    "uint (d + pwm_dead_time_ticks s) = uint d + uint (pwm_dead_time_ticks s)"
    if "\<not> PWM_HALF_TOP < uint d"
    using that assms(6) by (simp add: PWM_HALF_TOP_val uint_plus_if')
  show ?thesis
    using distinct no_borrow no_carry d_top sub_le add_le assms(3,6)
    by (cases inverted; cases "PWM_HALF_TOP < uint d")
       (simp_all add: phase_set_i_in_range [OF assms(1,2)] compare_high_def compare_low_def
          PWM_TOP_val PWM_HALF_TOP_val)
qed

theorem set_phase_no_wraparound_witness:
  "(0::int) \<le> 0 \<and> (0::int) \<le> 2 \<and> PWM_HALF_TOP \<le> uint (512 :: uint16_t) \<and>
   (512 :: uint16_t) \<le> pwm_max sample_state \<and> uint (pwm_max sample_state) \<le> PWM_TOP \<and>
   uint (pwm_dead_time_ticks sample_state) < PWM_HALF_TOP \<and>
   pwm_dead_time_ticks sample_state = 28 \<and> pwm_max sample_state = 1012 \<and>
   (\<exists>s'. phase_set_i sample_headers sample_state 0 \<lparr>normalized_duty_cycle = 512\<rparr> True = Inr s' \<and>
      uint (compare_high s' 0) = 540 \<and> uint (compare_low s' 0) = 512)"
  using set_phase_no_wraparound [of 0 512 sample_state sample_headers True]
  by (auto simp: sample_state_def PWM_TOP_val PWM_HALF_TOP_val)

subsection \<open>C3: the limits at 72 MHz\<close>

text \<open>
  The single-precision quotients of the derivation at a timer clock of 72 MHz, each
  evaluated from the definition of the rounding: the clock period, the minimum pulse and
  the dead time in ticks (21.6 and 28.8 up to rounding), and the bound 0.05 * 1023 of
  the two checks.
\<close>

lemma init_timer_frequency: "round_binary32 72000000 = 72000000"
  by code_simp

lemma init_clock_period: "f32_div 1 72000000 = 15637499 / 1125899906842624"
  by code_simp

lemma init_min_pulse_ticks:
  "f32_div (f32_div (round_binary32 (of_nat PWM_MIN_PULSE_NANOSEC)) 1000000000)
     (15637499 / 1125899906842624) = 11324621 / 524288"
  by code_simp

lemma init_dead_time_ticks:
  "f32_div (f32_div (round_binary32 (of_nat PWM_DEAD_TIME_NANOSEC)) 1000000000)
     (15637499 / 1125899906842624) = 7549747 / 262144"
  by code_simp

lemma init_limit:
  "f32_mul (round_binary32 (of_int PWM_TOP)) (round_binary32 (5 / 100)) = 6704333 / 131072"
  by code_simp

lemma init_min_pulse_ticks_uint16: "float_to_uint16 (11324621 / 524288) = 21"
  by code_simp

lemma init_dead_time_ticks_uint16: "float_to_uint16 (7549747 / 262144) = 28"
  by code_simp

lemma init_at_72MHz:
  assumes "STM32_TIMCLK1 h = 72000000"
  shows "motor_pwm_init h s =
    motor_pwm_set_freewheeling h (s\<lparr>pwm_max := 1012, pwm_dead_time_ticks := 28\<rparr>)"
proof -
  have clk: "(of_nat (unat (72000000 :: 32 word)) :: rat) = 72000000"
    by simp
  show ?thesis
    unfolding motor_pwm_init_def assms Let_def clk init_timer_frequency init_clock_period
      init_min_pulse_ticks init_dead_time_ticks init_limit
      init_min_pulse_ticks_uint16 init_dead_time_ticks_uint16
    by (simp add: PWM_TOP_val)
qed


lemma spec_ticks_min_pulse: "spec_ticks 300 72000000 = 21"
  by (simp add: spec_ticks_def floor_eq_iff)

lemma spec_ticks_dead_time: "spec_ticks 400 72000000 = 28"
  by (simp add: spec_ticks_def floor_eq_iff)

text \<open>
  C3. With a minimum pulse of 300 ns, a dead time of 400 ns, a resolution of 10 bits
  (\<open>top = 1023\<close>) and a timer clock of 72 MHz, \<open>motor_pwm_init\<close> passes its checks
  and returns with a dead time of 28 ticks and \<open>_pwm_max = 1012\<close>. The dead time is
  the exact product 400e-9 * 72e6 cut to an integer and not halved; the minimum pulse
  is 21 ticks by the same formula, and \<open>_pwm_max\<close> is \<open>top - (21 div 2 + 1)\<close>.
\<close>

theorem init_limits_at_72MHz:
  assumes "STM32_TIMCLK1 h = 72000000"
  shows "\<exists>s'. motor_pwm_init h s = Inr s' \<and>
    pwm_dead_time_ticks s' = 28 \<and> pwm_max s' = 1012 \<and>
    uint (pwm_dead_time_ticks s') = spec_ticks PWM_DEAD_TIME_NANOSEC 72000000 \<and>
    spec_ticks PWM_MIN_PULSE_NANOSEC 72000000 = 21 \<and>
    uint (pwm_max s') = spec_pwm_max PWM_TOP (spec_ticks PWM_MIN_PULSE_NANOSEC 72000000)"
proof -
  obtain s' where s': "motor_pwm_set_freewheeling h
      (s\<lparr>pwm_max := 1012, pwm_dead_time_ticks := 28\<rparr>) = Inr s'"
    and "pwm_max s' = 1012" and "pwm_dead_time_ticks s' = 28"
    using set_freewheeling_all_off [of h "s\<lparr>pwm_max := 1012, pwm_dead_time_ticks := 28\<rparr>"]
    by auto
  then show ?thesis
    by (simp add: init_at_72MHz [OF assms] spec_ticks_min_pulse spec_ticks_dead_time
        PWM_MIN_PULSE_NANOSEC_def PWM_DEAD_TIME_NANOSEC_def spec_pwm_max_def PWM_TOP_val)
qed

theorem init_limits_at_72MHz_witness:
  "STM32_TIMCLK1 sample_headers = 72000000 \<and>
   (\<exists>s'. motor_pwm_init sample_headers sample_state = Inr s' \<and>
      pwm_dead_time_ticks s' = 28 \<and> pwm_max s' = 1012)"
proof -
  have clk: "STM32_TIMCLK1 sample_headers = 72000000"
    by (simp add: sample_headers_def)
  show ?thesis
    using clk init_limits_at_72MHz [OF clk, of sample_state] by auto
qed

subsection \<open>C8: the order of the register writes\<close>

lemma events_of_appended [simp]:
  "events_of s (Inr (s'\<lparr>trace := trace s @ es\<rparr>)) = es"
  by (simp add: events_of_def)

text \<open>
  C8, as the code has it. For every phase in 0..2: \<open>phase_set_i\<close> stores to the two
  polarity registers first and to the two compare registers after them, and leaves the
  interrupt mask to its caller. \<open>motor_pwm_manip\<close> with HIGH or HALF performs these
  four stores inside one masked section. With LOW or FLOATING it stores to the two
  polarity registers inside one masked section and to the two compare registers after
  the interrupts are enabled again.
\<close>

theorem register_write_order:
  assumes "0 \<le> phase" and "phase \<le> 2"
  shows "events_of s (phase_set_i h s phase v inverted) =
           [Store TIM3_CCER, Store TIM4_CCER,
            Store (PWM_REG_HIGH ! nat phase), Store (PWM_REG_LOW ! nat phase)] \<and>
         (\<exists>s'. phase_set_i h s phase v inverted = Inr s' \<and> primask s' = primask s) \<and>
         ((command = MOTOR_PWM_MANIP_HIGH \<or> command = MOTOR_PWM_MANIP_HALF) \<and>
          MOTOR_PWM_DUTY_CYCLE_RESOLUTION h = 16 \<and> PWM_HALF_TOP \<le> uint (pwm_max s) \<longrightarrow>
            events_of s (motor_pwm_manip h s phase command) =
              [IrqDisable, Store TIM3_CCER, Store TIM4_CCER,
               Store (PWM_REG_HIGH ! nat phase), Store (PWM_REG_LOW ! nat phase), IrqEnable] \<and>
            one_masked_section (events_of s (motor_pwm_manip h s phase command))) \<and>
         (command = MOTOR_PWM_MANIP_LOW \<or> command = MOTOR_PWM_MANIP_FLOATING \<longrightarrow>
            events_of s (motor_pwm_manip h s phase command) =
              [IrqDisable, Store TIM3_CCER, Store TIM4_CCER, IrqEnable,
               Store (PWM_REG_HIGH ! nat phase), Store (PWM_REG_LOW ! nat phase)])"
proof (intro conjI impI)
  show "events_of s (phase_set_i h s phase v inverted) =
           [Store TIM3_CCER, Store TIM4_CCER,
            Store (PWM_REG_HIGH ! nat phase), Store (PWM_REG_LOW ! nat phase)]"
    by (simp add: phase_set_i_in_range [OF assms])
  show "\<exists>s'. phase_set_i h s phase v inverted = Inr s' \<and> primask s' = primask s"
    by (simp add: phase_set_i_in_range [OF assms])
next
  assume c: "(command = MOTOR_PWM_MANIP_HIGH \<or> command = MOTOR_PWM_MANIP_HALF) \<and>
          MOTOR_PWM_DUTY_CYCLE_RESOLUTION h = 16 \<and> PWM_HALF_TOP \<le> uint (pwm_max s)"
  then obtain w where w: "motor_pwm_compute_pwm_val h s
      (if command = MOTOR_PWM_MANIP_HIGH then MOTOR_PWM_DUTY_CYCLE_MAX h else 0) = Inr w"
    using compute_pwm_val_result [of h s] by blast
  obtain s2 where s2: "phase_set_i h s phase w False = Inr s2"
    by (simp add: phase_set_i_in_range [OF assms])
  show e: "events_of s (motor_pwm_manip h s phase command) =
              [IrqDisable, Store TIM3_CCER, Store TIM4_CCER,
               Store (PWM_REG_HIGH ! nat phase), Store (PWM_REG_LOW ! nat phase), IrqEnable]"
    using c by (simp add: manip_drive_in_range [OF assms _ w s2])
  show "one_masked_section (events_of s (motor_pwm_manip h s phase command))"
    unfolding e using phase_regs_distinct [OF assms]
    by (simp add: one_masked_section_def)
next
  assume "command = MOTOR_PWM_MANIP_LOW \<or> command = MOTOR_PWM_MANIP_FLOATING"
  then have "command \<noteq> MOTOR_PWM_MANIP_HIGH" "command \<noteq> MOTOR_PWM_MANIP_HALF"
    by auto
  then show "events_of s (motor_pwm_manip h s phase command) =
              [IrqDisable, Store TIM3_CCER, Store TIM4_CCER, IrqEnable,
               Store (PWM_REG_HIGH ! nat phase), Store (PWM_REG_LOW ! nat phase)]"
    by (simp add: manip_off_in_range [OF assms])
qed

theorem register_write_order_witness:
  "(0::int) \<le> 0 \<and> (0::int) \<le> 2 \<and>
   MOTOR_PWM_DUTY_CYCLE_RESOLUTION sample_headers = 16 \<and>
   PWM_HALF_TOP \<le> uint (pwm_max sample_state) \<and>
   events_of sample_state
     (phase_set_i sample_headers sample_state 0 \<lparr>normalized_duty_cycle = 600\<rparr> False) =
     [Store TIM3_CCER, Store TIM4_CCER, Store TIM4_CCR1, Store TIM3_CCR2] \<and>
   events_of sample_state
     (motor_pwm_manip sample_headers sample_state 0 MOTOR_PWM_MANIP_HIGH) =
     [IrqDisable, Store TIM3_CCER, Store TIM4_CCER, Store TIM4_CCR1, Store TIM3_CCR2, IrqEnable] \<and>
   one_masked_section (events_of sample_state
     (motor_pwm_manip sample_headers sample_state 0 MOTOR_PWM_MANIP_HIGH))"
proof -
  have res: "MOTOR_PWM_DUTY_CYCLE_RESOLUTION sample_headers = 16"
    by (simp add: sample_headers_def)
  have lim: "PWM_HALF_TOP \<le> uint (pwm_max sample_state)"
    by (simp add: sample_state_def PWM_HALF_TOP_val)
  show ?thesis
    using res lim
      register_write_order [of 0 sample_state sample_headers
        "\<lparr>normalized_duty_cycle = 600\<rparr>" False MOTOR_PWM_MANIP_HIGH]
    by (auto simp: PWM_REG_HIGH_def PWM_REG_LOW_def)
qed

text \<open>
  The ordering guarantee as the spec states it asks for all four stores of the LOW and
  FLOATING branch inside one masked section. At phase 0, from a state with the
  interrupts enabled, the two compare stores follow the \<open>IrqEnable\<close>.
\<close>

theorem manip_floating_stores_after_unmask:
  "events_of sample_state
     (motor_pwm_manip sample_headers sample_state 0 MOTOR_PWM_MANIP_FLOATING) =
     [IrqDisable, Store TIM3_CCER, Store TIM4_CCER, IrqEnable, Store TIM4_CCR1, Store TIM3_CCR2] \<and>
   \<not> one_masked_section (events_of sample_state
     (motor_pwm_manip sample_headers sample_state 0 MOTOR_PWM_MANIP_FLOATING))"
  by (simp add: manip_off_in_range one_masked_section_def PWM_REG_HIGH_def PWM_REG_LOW_def)

end
